theory Spec2Isabelle
  imports Main "HOL-Library.AList" "HOL-Library.Word"
begin

section \<open>Data model\<close>

text \<open>
  The client in \<^verbatim>\<open>src/omni_python_sdk/api.py\<close> talks JSON over HTTP.  A parsed JSON
  value is a \<open>json\<close>; a Python \<^verbatim>\<open>dict\<close> is an association list read with \<open>map_of\<close>
  and written with \<open>AList.update\<close>, which overwrites a key where it stands and appends
  a new key at the end, as a Python dict does.  Numbers carry an integer payload: no
  operation of the client looks inside a number.
\<close>

datatype json =
    JNull
  | JBool bool
  | JNum int
  | JStr string
  | JArr "json list"
  | JObj "(string \<times> json) list"

type_synonym dict = "(string \<times> json) list"

type_synonym byte = "8 word"

text \<open>The exceptions the modelled code paths can raise.\<close>

datatype error =
    HTTPError int
  | KeyError string
  | IndexError
  | TypeError
  | ValueError string
  | DecodeError string

text \<open>
  An HTTP response as the client reads it: the status code, and the records that
  \<^verbatim>\<open>ndjson.loads(response.text)\<close> yields.  Every line of a response body is a JSON
  object (the record shape of the service), so a record is a \<open>dict\<close>.
\<close>

record response =
  status_code :: int
  ndjson :: "dict list"

text \<open>
  A request as it leaves the client.  \<open>Post url body\<close> is \<^verbatim>\<open>requests.post(url, json=body)\<close>;
  \<open>Get url v\<close> is the wait request, whose query string is
  \<^verbatim>\<open>urlencode({'job_ids': json.dumps(v)})\<close>.  The headers are the same on every request and
  are left out.
\<close>

datatype request =
    Post string dict
  | Get string json

record OmniAPI =
  api_key :: string
  base_url :: string

text \<open>
  The two library calls of the decode step, \<^verbatim>\<open>base64.b64decode\<close> and
  \<^verbatim>\<open>ipc.open_stream(...).read_all()\<close>, belong to the Python standard library and to
  pyarrow.  They are parameters of the model, together with the column count of a
  decoded table.
\<close>

record 'tbl codec =
  b64decode :: "string \<Rightarrow> error + byte list"
  read_all :: "byte list \<Rightarrow> error + 'tbl"
  num_columns :: "'tbl \<Rightarrow> nat"

section \<open>Python primitives\<close>

text \<open>\<^verbatim>\<open>d[k]\<close> on a dict: the value, or \<^verbatim>\<open>KeyError\<close>.\<close>

definition getitem :: "dict \<Rightarrow> string \<Rightarrow> error + json" where
  "getitem d k = (case map_of d k of None \<Rightarrow> Inl (KeyError k) | Some v \<Rightarrow> Inr v)"

text \<open>\<^verbatim>\<open>v[k]\<close> with a string key on any JSON value: only a dict accepts it.\<close>

definition subscript :: "json \<Rightarrow> string \<Rightarrow> error + json" where
  "subscript v k = (case v of JObj d \<Rightarrow> getitem d k | _ \<Rightarrow> Inl TypeError)"

text \<open>\<^verbatim>\<open>xs[-1]\<close>: the last element, or \<^verbatim>\<open>IndexError\<close> on the empty list.\<close>

definition last_item :: "'a list \<Rightarrow> error + 'a" where
  "last_item xs = (if xs = [] then Inl IndexError else Inr (last xs))"

text \<open>\<^verbatim>\<open>k in d\<close> on a dict.\<close>

definition has_key :: "string \<Rightarrow> dict \<Rightarrow> bool" where
  "has_key k d = (map_of d k \<noteq> None)"

text \<open>
  \<^verbatim>\<open>response.raise_for_status()\<close> of the requests library: \<^verbatim>\<open>HTTPError\<close> for a status
  from 400 to 599, nothing otherwise.
\<close>

definition raise_for_status :: "response \<Rightarrow> error + unit" where
  "raise_for_status r =
     (if 400 \<le> status_code r \<and> status_code r < 600
      then Inl (HTTPError (status_code r)) else Inr ())"

section \<open>Running a query\<close>

text \<open>
  Lines 57-58 and 80-81: the footer is the last record, and the query is done when the
  footer's \<^verbatim>\<open>timed_out\<close> is the string \<^verbatim>\<open>false\<close>.
\<close>

definition footer_done :: "dict list \<Rightarrow> error + dict \<times> bool" where
  "footer_done response_json =
     (case last_item response_json of
        Inl e \<Rightarrow> Inl e
      | Inr footer \<Rightarrow>
          (case getitem footer ''timed_out'' of
             Inl e \<Rightarrow> Inl e
           | Inr t \<Rightarrow> Inr (footer, t = JStr ''false'')))"

text \<open>
  The wait request of lines 48-52 and the submit request of lines 74-75.
\<close>

definition wait_request :: "OmniAPI \<Rightarrow> json \<Rightarrow> request" where
  "wait_request api remaining_job_ids = Get (base_url api @ ''/query/wait'') remaining_job_ids"

definition run_request :: "OmniAPI \<Rightarrow> dict \<Rightarrow> request" where
  "run_request api body = Post (base_url api @ ''/query/run'') body"

text \<open>
  \<^verbatim>\<open>wait_query_blocking\<close> (lines 38-61).  The argument \<open>response\<close> is what
  \<^verbatim>\<open>requests.get\<close> returns for the request; the result is the request sent, and either the
  exception raised or the value returned, where \<open>None\<close> is Python's \<^verbatim>\<open>None\<close> of the
  branch that falls off the end.
\<close>

definition wait_query_blocking ::
  "OmniAPI \<Rightarrow> response \<Rightarrow> json \<Rightarrow> request \<times> (error + (dict list \<times> bool) option)" where
  "wait_query_blocking api response remaining_job_ids =
     (wait_request api remaining_job_ids,
      if status_code response = 200 then
        (case footer_done (ndjson response) of
           Inl e \<Rightarrow> Inl e
         | Inr (footer, done) \<Rightarrow> Inr (Some (ndjson response, done)))
      else
        (case raise_for_status response of
           Inl e \<Rightarrow> Inl e
         | Inr u \<Rightarrow> Inr None))"

text \<open>
  The loop of lines 82-83.  \<open>srv i\<close> is the response the service gives to the \<open>i\<close>-th
  request of the call (request 0 is the submit).  \<open>footer\<close> is the variable assigned at
  line 80; the loop body assigns \<^verbatim>\<open>response_json\<close> and \<^verbatim>\<open>done\<close> only.  Unpacking the
  \<^verbatim>\<open>None\<close> that \<^verbatim>\<open>wait_query_blocking\<close> may return raises \<^verbatim>\<open>TypeError\<close>.  The loop has no
  bound of its own, so the model takes fuel: the result is the list of wait requests
  sent, and \<open>None\<close> when the fuel ran out with the loop still running, otherwise the
  exception raised or the records the loop ended on.
\<close>

fun poll ::
  "OmniAPI \<Rightarrow> (nat \<Rightarrow> response) \<Rightarrow> nat \<Rightarrow> nat \<Rightarrow> dict \<Rightarrow> dict list \<Rightarrow> bool
     \<Rightarrow> request list \<times> (error + dict list) option" where
  "poll api srv 0 i footer response_json done =
     (if done then ([], Some (Inr response_json)) else ([], None))"
| "poll api srv (Suc fuel) i footer response_json done =
     (if done then ([], Some (Inr response_json))
      else
        (case getitem footer ''remaining_job_ids'' of
           Inl e \<Rightarrow> ([], Some (Inl e))
         | Inr ids \<Rightarrow>
             (case wait_query_blocking api (srv i) ids of
                (req, Inl e) \<Rightarrow> ([req], Some (Inl e))
              | (req, Inr None) \<Rightarrow> ([req], Some (Inl TypeError))
              | (req, Inr (Some (response_json', done'))) \<Rightarrow>
                  (case poll api srv fuel (Suc i) footer response_json' done' of
                     (reqs, out) \<Rightarrow> (req # reqs, out)))))"

text \<open>
  Lines 84-94: the first record with a \<^verbatim>\<open>result\<close> key is decoded; without one the call
  raises \<^verbatim>\<open>ValueError\<close>.  \<^verbatim>\<open>b64decode\<close> accepts a string only.
\<close>

definition decode_result :: "'tbl codec \<Rightarrow> dict list \<Rightarrow> error + 'tbl \<times> json" where
  "decode_result lib response_json =
     (case find (has_key ''result'') response_json of
        None \<Rightarrow> Inl (ValueError ''No result found in the response.'')
      | Some data_payload \<Rightarrow>
          (case getitem data_payload ''result'' of
             Inl e \<Rightarrow> Inl e
           | Inr base64_data \<Rightarrow>
               (case (case base64_data of JStr s \<Rightarrow> b64decode lib s | _ \<Rightarrow> Inl TypeError) of
                  Inl e \<Rightarrow> Inl e
                | Inr raw_arrow_data \<Rightarrow>
                    (case read_all lib raw_arrow_data of
                       Inl e \<Rightarrow> Inl e
                     | Inr table \<Rightarrow>
                         (case getitem data_payload ''summary'' of
                            Inl e \<Rightarrow> Inl e
                          | Inr summary \<Rightarrow>
                              (case subscript summary ''fields'' of
                                 Inl e \<Rightarrow> Inl e
                               | Inr flds \<Rightarrow> Inr (table, flds)))))))"

text \<open>
  \<^verbatim>\<open>run_query_blocking\<close> (lines 63-96).  The result is the list of all requests sent,
  the submit first, and the outcome: \<open>None\<close> when the fuel ran out inside the loop,
  otherwise the exception raised or the value returned (\<open>None\<close> for Python's \<^verbatim>\<open>None\<close>
  of the branch that falls off the end).
\<close>

definition run_query_blocking ::
  "'tbl codec \<Rightarrow> OmniAPI \<Rightarrow> (nat \<Rightarrow> response) \<Rightarrow> nat \<Rightarrow> dict
     \<Rightarrow> request list \<times> (error + ('tbl \<times> json) option) option" where
  "run_query_blocking lib api srv fuel body =
     (let req = run_request api body;
          response = srv 0
      in if status_code response = 200 then
           (case footer_done (ndjson response) of
              Inl e \<Rightarrow> ([req], Some (Inl e))
            | Inr (footer, done) \<Rightarrow>
                (case poll api srv fuel 1 footer (ndjson response) done of
                   (reqs, None) \<Rightarrow> (req # reqs, None)
                 | (reqs, Some (Inl e)) \<Rightarrow> (req # reqs, Some (Inl e))
                 | (reqs, Some (Inr response_json)) \<Rightarrow>
                     (req # reqs,
                      Some (case decode_result lib response_json of
                              Inl e \<Rightarrow> Inl e
                            | Inr r \<Rightarrow> Inr (Some r)))))
         else
           (case raise_for_status response of
              Inl e \<Rightarrow> ([req], Some (Inl e))
            | Inr u \<Rightarrow> ([req], Some (Inr None))))"

section \<open>Creating models, topics, views and fields\<close>

text \<open>The URL helpers of lines 98-178.\<close>

definition base_model_url :: "OmniAPI \<Rightarrow> string" where
  "base_model_url api = base_url api @ ''/model''"

definition base_topic_url :: "OmniAPI \<Rightarrow> string \<Rightarrow> string" where
  "base_topic_url api model_id = base_model_url api @ ''/'' @ model_id @ ''/topic''"

definition base_view_url :: "OmniAPI \<Rightarrow> string \<Rightarrow> string" where
  "base_view_url api model_id = base_model_url api @ ''/'' @ model_id @ ''/view''"

definition base_field_url :: "OmniAPI \<Rightarrow> string \<Rightarrow> string" where
  "base_field_url api model_id = base_view_url api model_id @ ''/field''"

text \<open>
  The caller passes \<^verbatim>\<open>body\<close> by reference, so the dictionaries live in a store and a
  \<^verbatim>\<open>body\<close> argument is an address.  \<open>http req\<close> is what \<^verbatim>\<open>requests.post\<close> followed by
  \<^verbatim>\<open>response.json()\<close> gives for the request: the parsed reply, or the exception.  Each
  function returns the store it leaves, the request it sent and its result.
\<close>

type_synonym addr = nat

type_synonym store = "addr \<Rightarrow> dict"

definition create_model ::
  "OmniAPI \<Rightarrow> (request \<Rightarrow> error + json) \<Rightarrow> string \<Rightarrow> addr \<Rightarrow> store
     \<Rightarrow> store \<times> request \<times> (error + json)" where
  "create_model api http connection_id body h =
     (let url = base_model_url api;
          h1 = h(body := AList.update ''connectionId'' (JStr connection_id) (h body));
          req = Post url (h1 body)
      in (h1, req, http req))"

definition create_topic ::
  "OmniAPI \<Rightarrow> (request \<Rightarrow> error + json) \<Rightarrow> string \<Rightarrow> string \<Rightarrow> addr \<Rightarrow> store
     \<Rightarrow> store \<times> request \<times> (error + json)" where
  "create_topic api http model_id base_view_name body h =
     (let url = base_topic_url api model_id;
          h1 = h(body := AList.update ''baseViewName'' (JStr base_view_name) (h body));
          req = Post url (h1 body)
      in (h1, req, http req))"

definition create_view ::
  "OmniAPI \<Rightarrow> (request \<Rightarrow> error + json) \<Rightarrow> string \<Rightarrow> string \<Rightarrow> addr \<Rightarrow> store
     \<Rightarrow> store \<times> request \<times> (error + json)" where
  "create_view api http model_id view_name body h =
     (let url = base_view_url api model_id;
          h1 = h(body := AList.update ''viewName'' (JStr view_name) (h body));
          req = Post url (h1 body)
      in (h1, req, http req))"

definition create_field ::
  "OmniAPI \<Rightarrow> (request \<Rightarrow> error + json) \<Rightarrow> string \<Rightarrow> string \<Rightarrow> string \<Rightarrow> addr \<Rightarrow> store
     \<Rightarrow> store \<times> request \<times> (error + json)" where
  "create_field api http model_id view_name field_name body h =
     (let url = base_field_url api model_id;
          h1 = h(body := AList.update ''fieldName'' (JStr field_name) (h body));
          h2 = h1(body := AList.update ''viewName'' (JStr view_name) (h1 body));
          req = Post url (h2 body)
      in (h2, req, http req))"

section \<open>listify\<close>

text \<open>\<^verbatim>\<open>s.replace(c, '')\<close> for a one-character \<^verbatim>\<open>c\<close>: every occurrence is deleted.\<close>

definition remove_char :: "char \<Rightarrow> string \<Rightarrow> string" where
  "remove_char c s = filter (\<lambda>x. x \<noteq> c) s"

text \<open>
  \<^verbatim>\<open>s.split(sep)\<close> for a one-character separator: the pieces between the separators,
  empty pieces included, so the result is never empty.
\<close>

fun split_on :: "char \<Rightarrow> string \<Rightarrow> string list" where
  "split_on sep [] = [[]]"
| "split_on sep (c # cs) =
     (let rest = split_on sep cs
      in if c = sep then [] # rest else (c # hd rest) # tl rest)"

text \<open>
  \<^verbatim>\<open>listify\<close> (lines 551-566) on a dictionary with string values.  The loop runs over
  the items in order and writes each into \<^verbatim>\<open>out\<close> with \<^verbatim>\<open>out.update\<close>.
\<close>

fun listify_items :: "(string \<times> string) list \<Rightarrow> dict \<Rightarrow> dict" where
  "listify_items [] out = out"
| "listify_items ((k, v) # items) out =
     listify_items items
       (if CHR ''['' \<in> set v \<and> CHR '']'' \<in> set v
        then AList.update k
               (JArr (map JStr (split_on CHR '','' (remove_char CHR '']'' (remove_char CHR ''['' v)))))
               out
        else AList.update k (JStr v) out)"

definition listify :: "(string \<times> string) list \<Rightarrow> dict" where
  "listify d = listify_items d []"

text \<open>
  The value that the description of \<^verbatim>\<open>listify\<close> gives for a string: with both brackets in
  it, the list obtained by deleting every bracket and splitting the remainder at the
  commas; otherwise the string itself.
\<close>

definition listified_value :: "string \<Rightarrow> json" where
  "listified_value v =
     (if CHR ''['' \<in> set v \<and> CHR '']'' \<in> set v
      then JArr (map JStr (split_on CHR '',''
                  (filter (\<lambda>c. c \<noteq> CHR ''['' \<and> c \<noteq> CHR '']'') v)))
      else JStr v)"

text \<open>Joining pieces with a separator, the inverse of splitting.\<close>

fun join_with :: "char \<Rightarrow> string list \<Rightarrow> string" where
  "join_with sep [] = []"
| "join_with sep [w] = w"
| "join_with sep (w # ws) = w @ sep # join_with sep ws"

section \<open>Vocabulary of the statements\<close>

text \<open>
  A response that keeps the loop going: status 200, at least one record, and a footer
  whose \<^verbatim>\<open>timed_out\<close> is present and is not the string \<^verbatim>\<open>false\<close>.
\<close>

definition pending :: "response \<Rightarrow> bool" where
  "pending r =
     (status_code r = 200 \<and> ndjson r \<noteq> [] \<and>
      (case map_of (last (ndjson r)) ''timed_out'' of
         None \<Rightarrow> False
       | Some v \<Rightarrow> v \<noteq> JStr ''false''))"

text \<open>A response that completes the query: status 200 and a footer with \<^verbatim>\<open>timed_out\<close> \<^verbatim>\<open>false\<close>.\<close>

definition complete :: "response \<Rightarrow> bool" where
  "complete r =
     (status_code r = 200 \<and> ndjson r \<noteq> [] \<and>
      map_of (last (ndjson r)) ''timed_out'' = Some (JStr ''false''))"

text \<open>
  The first \<open>k\<close> responses of the service (the submit response and \<open>k - 1\<close> wait
  responses) are pending, and if there is one at all, the footer of the submit response
  carries the job ids \<open>ids\<close>.
\<close>

definition polls_until :: "(nat \<Rightarrow> response) \<Rightarrow> json \<Rightarrow> nat \<Rightarrow> bool" where
  "polls_until srv ids k =
     ((\<forall>j<k. pending (srv j)) \<and>
      (0 < k \<longrightarrow> map_of (last (ndjson (srv 0))) ''remaining_job_ids'' = Some ids))"


section \<open>Example data\<close>

text \<open>Concrete inputs on which the statements below are evaluated.\<close>

definition example_api :: OmniAPI where
  "example_api = \<lparr>api_key = ''secret'', base_url = ''https://omni.example/api/unstable''\<rparr>"

text \<open>
  A stand-in for the two library calls: it decodes the one payload the examples carry
  (\<^verbatim>\<open>QUJD\<close> is the base64 text of the bytes 65, 66, 67) and reads the bytes as a table of
  one-byte columns.
\<close>

definition example_codec :: "byte list list codec" where
  "example_codec =
     \<lparr>b64decode = (\<lambda>s. if s = ''QUJD'' then Inr [65, 66, 67] else Inl (DecodeError ''binascii.Error'')),
      read_all = (\<lambda>raw. Inr (map (\<lambda>b. [b]) raw)),
      num_columns = length\<rparr>"

text \<open>
  The writing side of the stand-in: a table of one-byte columns is written as its bytes,
  and the bytes 65, 66, 67 are encoded as \<^verbatim>\<open>QUJD\<close>.
\<close>

definition example_write_stream :: "byte list list \<Rightarrow> byte list" where
  "example_write_stream t = concat t"

definition example_b64encode :: "byte list \<Rightarrow> string" where
  "example_b64encode raw = (if raw = [65, 66, 67] then ''QUJD'' else [])"

text \<open>A service that answers from a script and with status 500 once the script is over.\<close>

definition scripted :: "response list \<Rightarrow> nat \<Rightarrow> response" where
  "scripted rs i = (if i < length rs then rs ! i else \<lparr>status_code = 500, ndjson = []\<rparr>)"

definition footer_waiting :: "json \<Rightarrow> dict" where
  "footer_waiting ids = [(''timed_out'', JStr ''true''), (''remaining_job_ids'', ids)]"

definition footer_finished :: dict where
  "footer_finished = [(''timed_out'', JStr ''false'')]"

definition example_fields :: "json list" where
  "example_fields =
     [JObj [(''name'', JStr ''a'')], JObj [(''name'', JStr ''b'')], JObj [(''name'', JStr ''c'')]]"

definition result_record :: dict where
  "result_record =
     [(''result'', JStr ''QUJD''), (''summary'', JObj [(''fields'', JArr example_fields)])]"

definition still_waiting :: "json \<Rightarrow> response" where
  "still_waiting ids = \<lparr>status_code = 200, ndjson = [footer_waiting ids]\<rparr>"

definition finished_with_result :: response where
  "finished_with_result = \<lparr>status_code = 200, ndjson = [result_record, footer_finished]\<rparr>"

definition finished_without_result :: response where
  "finished_without_result = \<lparr>status_code = 200, ndjson = [footer_finished]\<rparr>"

definition two_jobs :: json where
  "two_jobs = JArr [JStr ''job-1'', JStr ''job-2'']"

definition one_job :: json where
  "one_job = JArr [JStr ''job-2'']"

section \<open>The polling loop\<close>

lemma footer_done_pending:
  "pending r \<Longrightarrow> footer_done (ndjson r) = Inr (last (ndjson r), False)"
  by (auto simp: pending_def footer_done_def last_item_def getitem_def split: option.splits)

lemma footer_done_complete:
  "complete r \<Longrightarrow> footer_done (ndjson r) = Inr (last (ndjson r), True)"
  by (simp add: complete_def footer_done_def last_item_def getitem_def)

lemma wait_pending:
  "pending r \<Longrightarrow>
     wait_query_blocking api r ids = (wait_request api ids, Inr (Some (ndjson r, False)))"
  by (simp add: wait_query_blocking_def footer_done_pending) (simp add: pending_def)

lemma wait_complete:
  "complete r \<Longrightarrow>
     wait_query_blocking api r ids = (wait_request api ids, Inr (Some (ndjson r, True)))"
  by (simp add: wait_query_blocking_def footer_done_complete) (simp add: complete_def)

lemma fst_wait: "fst (wait_query_blocking api r ids) = wait_request api ids"
  by (simp add: wait_query_blocking_def)

lemma poll_done: "poll api srv fuel i footer rj True = ([], Some (Inr rj))"
  by (cases fuel) simp_all

text \<open>
  While the responses are pending the loop sends one wait request per response, each with
  the job ids of the footer it was started with.
\<close>

lemma poll_skip:
  assumes "\<forall>j<m. pending (srv (i + j))"
    and "map_of footer ''remaining_job_ids'' = Some ids"
  shows "poll api srv (m + n) i footer rj False =
           (case poll api srv n (i + m) footer
                   (if m = 0 then rj else ndjson (srv (i + m - 1))) False of
              (reqs, out) \<Rightarrow> (replicate m (wait_request api ids) @ reqs, out))"
  using assms
proof (induction m arbitrary: i rj)
  case 0
  then show ?case by simp
next
  case (Suc m)
  have p: "pending (srv i)" using Suc.prems(1) by force
  have rest: "\<forall>j<m. pending (srv (Suc i + j))" using Suc.prems(1) by force
  have step: "poll api srv (Suc (m + n)) i footer rj False =
      (case poll api srv (m + n) (Suc i) footer (ndjson (srv i)) False of
         (reqs, out) \<Rightarrow> (wait_request api ids # reqs, out))"
    using Suc.prems(2) by (simp add: getitem_def wait_pending [OF p])
  have same: "(if m = 0 then ndjson (srv i) else ndjson (srv (Suc i + m - 1))) =
                ndjson (srv (i + Suc m - 1))"
    by (cases m) simp_all
  show ?case
    using Suc.IH [OF rest Suc.prems(2), of "ndjson (srv i)"] step same
    by (simp add: split_beta)
qed

text \<open>What the loop does with the first response that is not known to be pending.\<close>

lemma poll_ends:
  assumes "\<forall>j<m. pending (srv (i + j))"
    and "map_of footer ''remaining_job_ids'' = Some ids"
    and "m < fuel"
  shows "poll api srv fuel i footer rj False =
           (case snd (wait_query_blocking api (srv (i + m)) ids) of
              Inl e \<Rightarrow> (replicate (Suc m) (wait_request api ids), Some (Inl e))
            | Inr None \<Rightarrow> (replicate (Suc m) (wait_request api ids), Some (Inl TypeError))
            | Inr (Some (rj', done')) \<Rightarrow>
                (case poll api srv (fuel - Suc m) (Suc (i + m)) footer rj' done' of
                   (reqs, out) \<Rightarrow> (replicate (Suc m) (wait_request api ids) @ reqs, out)))"
proof -
  obtain n where fuel: "fuel = m + Suc n"
    using assms(3) by (auto simp: less_iff_Suc_add)
  obtain req res where w: "wait_query_blocking api (srv (i + m)) ids = (req, res)"
    by force
  have req: "req = wait_request api ids"
    using fst_wait [of api "srv (i + m)" ids] w by simp
  show ?thesis
    unfolding fuel poll_skip [OF assms(1,2)]
    using assms(2) w req
    by (simp add: getitem_def replicate_append_same
          split: sum.splits option.splits prod.splits)
qed


text \<open>
  Every wait request of the loop carries the job ids of the footer the loop was started
  with, whatever the wait responses hold.
\<close>

lemma poll_requests_carry_footer_ids:
  assumes "map_of footer ''remaining_job_ids'' = Some ids"
  shows "set (fst (poll api srv fuel i footer rj fin)) \<subseteq> {wait_request api ids}"
proof (induction fuel arbitrary: i rj fin)
  case 0
  then show ?case by simp
next
  case (Suc fuel)
  obtain res where w: "wait_query_blocking api (srv i) ids = (wait_request api ids, res)"
    using fst_wait [of api "srv i" ids] by (cases "wait_query_blocking api (srv i) ids") simp
  show ?case
  proof (cases fin)
    case True
    then show ?thesis by simp
  next
    case False
    show ?thesis
    proof (cases res)
      case (Inl e)
      then show ?thesis using False assms w by (simp add: getitem_def)
    next
      case (Inr r)
      show ?thesis
      proof (cases r)
        case None
        then show ?thesis using False assms w Inr by (simp add: getitem_def)
      next
        case (Some p)
        obtain rj' d' where p: "p = (rj', d')" by force
        show ?thesis
          using False assms w Inr Some p Suc.IH [of "Suc i" rj' d']
          by (simp add: getitem_def split_beta)
      qed
    qed
  qed
qed

text \<open>
  The loop has no bound: as long as every response is pending it goes on, one wait
  request per unit of fuel.
\<close>

lemma poll_never_ends_while_pending:
  assumes "\<forall>j. pending (srv (i + j))"
    and "map_of footer ''remaining_job_ids'' = Some ids"
  shows "poll api srv fuel i footer rj False = (replicate fuel (wait_request api ids), None)"
proof -
  have "\<forall>j<fuel. pending (srv (i + j))" using assms(1) by simp
  from poll_skip [OF this assms(2), of api 0 rj] show ?thesis by simp
qed

section \<open>Whole runs\<close>



text \<open>
  A run whose first complete response is response \<open>k\<close> sends \<open>k\<close> wait requests and
  decodes the records of that response.
\<close>

lemma run_complete:
  assumes "polls_until srv ids k" and "complete (srv k)" and "k \<le> fuel"
  shows "run_query_blocking lib api srv fuel body =
           (run_request api body # replicate k (wait_request api ids),
            Some (case decode_result lib (ndjson (srv k)) of
                    Inl e \<Rightarrow> Inl e | Inr r \<Rightarrow> Inr (Some r)))"
proof (cases k)
  case 0
  then show ?thesis
    using assms(2) footer_done_complete [of "srv 0"]
    by (simp add: run_query_blocking_def poll_done complete_def)
next
  case (Suc m)
  have p0: "pending (srv 0)"
    and ids: "map_of (last (ndjson (srv 0))) ''remaining_job_ids'' = Some ids"
    using assms(1) Suc by (simp_all add: polls_until_def)
  have pend: "\<forall>j<m. pending (srv (1 + j))"
    using assms(1) Suc by (simp add: polls_until_def)
  have c: "complete (srv (Suc m))" using assms(2) Suc by simp
  have m: "m < fuel" using assms(3) Suc by simp
  have "poll api srv fuel 1 (last (ndjson (srv 0))) (ndjson (srv 0)) False =
          (replicate (Suc m) (wait_request api ids), Some (Inr (ndjson (srv (1 + m)))))"
    unfolding poll_ends [OF pend ids m] by (simp add: wait_complete [OF c] poll_done)
  then show ?thesis
    using p0 footer_done_pending [OF p0] Suc
    by (simp add: run_query_blocking_def pending_def)
qed


lemma decode_no_result:
  assumes "\<forall>d\<in>set rj. \<not> has_key ''result'' d"
  shows "decode_result lib rj = Inl (ValueError ''No result found in the response.'')"
proof -
  have "find (has_key ''result'') rj = None" using assms by (simp add: find_None_iff)
  then show ?thesis by (simp add: decode_result_def)
qed

lemma find_single:
  assumes "filter P xs = [d]"
  shows "find P xs = Some d"
  using assms
proof (induction xs)
  case Nil
  then show ?case by simp
next
  case (Cons x xs)
  then show ?case by (cases "P x") auto
qed

section \<open>Claims about the query run\<close>

text \<open>
  Claim C1 says that every wait request carries the job ids of the most recent footer:
  those of the submit response for the first request, those of the latest wait response
  afterwards.  The loop reads \<^verbatim>\<open>footer['remaining_job_ids']\<close> anew for each request, but
  \<^verbatim>\<open>footer\<close> is assigned once, at line 80, so every request carries the job ids of the
  submit response.  Here the service reports two jobs, then one remaining job, then
  completion; the second wait request still asks for both jobs.
\<close>

theorem second_wait_request_repeats_initial_job_ids:
  "map_of (last (ndjson (scripted [still_waiting two_jobs, still_waiting one_job,
                                     finished_with_result] 1))) ''remaining_job_ids''
     = Some one_job
   \<and> one_job \<noteq> two_jobs
   \<and> fst (run_query_blocking example_codec example_api
            (scripted [still_waiting two_jobs, still_waiting one_job, finished_with_result])
            2 [])
     = [run_request example_api [], wait_request example_api two_jobs,
        wait_request example_api two_jobs]"
  by (simp add: run_query_blocking_def scripted_def still_waiting_def finished_with_result_def
        footer_waiting_def footer_finished_def result_record_def footer_done_def last_item_def
        getitem_def wait_query_blocking_def numeral_2_eq_2 one_job_def two_jobs_def Let_def)




lemmas example_defs =
  scripted_def still_waiting_def finished_with_result_def finished_without_result_def
  footer_waiting_def footer_finished_def result_record_def example_fields_def
  example_codec_def two_jobs_def one_job_def

lemmas run_defs =
  run_query_blocking_def wait_query_blocking_def footer_done_def last_item_def getitem_def
  decode_result_def has_key_def subscript_def raise_for_status_def Let_def


text \<open>
  Claim C3: when the response that completes the query (footer \<^verbatim>\<open>timed_out\<close> equal to
  \<^verbatim>\<open>false\<close>) has no record with a \<^verbatim>\<open>result\<close> key, \<^verbatim>\<open>run_query_blocking\<close> raises
  \<^verbatim>\<open>ValueError\<close>; it returns no table and no field metadata.
\<close>

theorem no_result_raises_ValueError:
  assumes "polls_until srv ids k" and "complete (srv k)" and "k \<le> fuel"
    and "\<forall>d\<in>set (ndjson (srv k)). \<not> has_key ''result'' d"
  shows "snd (run_query_blocking lib api srv fuel body) =
           Some (Inl (ValueError ''No result found in the response.''))"
  using run_complete [OF assms(1-3), of lib api body] decode_no_result [OF assms(4), of lib]
  by simp

theorem no_result_raises_ValueError_witness:
  "polls_until (scripted [still_waiting two_jobs, finished_without_result]) two_jobs (Suc 0)
   \<and> complete (scripted [still_waiting two_jobs, finished_without_result] (Suc 0))
   \<and> list_all (\<lambda>d. \<not> has_key ''result'' d)
        (ndjson (scripted [still_waiting two_jobs, finished_without_result] (Suc 0)))
   \<and> snd (run_query_blocking example_codec example_api
            (scripted [still_waiting two_jobs, finished_without_result]) (Suc 0) [])
       = Some (Inl (ValueError ''No result found in the response.''))"
proof -
  let ?s = "scripted [still_waiting two_jobs, finished_without_result]"
  have h1: "polls_until ?s two_jobs (Suc 0)"
    by (simp add: polls_until_def pending_def example_defs)
  have h2: "complete (?s (Suc 0))" by (simp add: complete_def example_defs)
  have h3: "Suc 0 \<le> Suc 0" by simp
  have h4: "\<forall>d\<in>set (ndjson (?s (Suc 0))). \<not> has_key ''result'' d"
    by (simp add: has_key_def example_defs)
  show ?thesis
    using h1 h2 h4 no_result_raises_ValueError [OF h1 h2 h3 h4, of example_codec example_api "[]"]
    by (simp add: list_all_iff)
qed

text \<open>
  What a response with a status other than 200 does to a run whose earlier responses
  were pending: no wait request follows it.  A status from 400 to 599 raises
  \<^verbatim>\<open>HTTPError\<close>; with any other status \<^verbatim>\<open>raise_for_status\<close> returns and the function falls
  off its end.
\<close>

lemma non_200_response_ends_the_call:
  assumes "polls_until srv ids k" and "status_code (srv k) \<noteq> 200" and "k \<le> fuel"
  shows "run_query_blocking lib api srv fuel body =
           (run_request api body # replicate k (wait_request api ids),
            Some (if 400 \<le> status_code (srv k) \<and> status_code (srv k) < 600
                  then Inl (HTTPError (status_code (srv k)))
                  else if k = 0 then Inr None else Inl TypeError))"
proof (cases k)
  case 0
  then show ?thesis using assms(2)
    by (simp add: run_query_blocking_def raise_for_status_def Let_def)
next
  case (Suc m)
  have p0: "pending (srv 0)"
    and ids: "map_of (last (ndjson (srv 0))) ''remaining_job_ids'' = Some ids"
    using assms(1) Suc by (simp_all add: polls_until_def)
  have pend: "\<forall>j<m. pending (srv (1 + j))"
    using assms(1) Suc by (simp add: polls_until_def)
  have m: "m < fuel" using assms(3) Suc by simp
  have w: "snd (wait_query_blocking api (srv (1 + m)) ids) =
             (if 400 \<le> status_code (srv k) \<and> status_code (srv k) < 600
              then Inl (HTTPError (status_code (srv k))) else Inr None)"
    using assms(2) Suc by (simp add: wait_query_blocking_def raise_for_status_def)
  have "poll api srv fuel 1 (last (ndjson (srv 0))) (ndjson (srv 0)) False =
          (replicate (Suc m) (wait_request api ids),
           Some (Inl (if 400 \<le> status_code (srv k) \<and> status_code (srv k) < 600
                      then HTTPError (status_code (srv k)) else TypeError)))"
    unfolding poll_ends [OF pend ids m] w by simp
  then show ?thesis
    using p0 footer_done_pending [OF p0] Suc
    by (simp add: run_query_blocking_def pending_def)
qed

text \<open>
  Claim C4 says that every response of the submit or the wait endpoint with a status
  outside 200-299 makes the call raise the transport error at once, with no further
  polling.  Both functions hand every status other than 200 to \<^verbatim>\<open>raise_for_status\<close>, which
  raises for the statuses 400 to 599 only, and have no statement after it.  With status
  304 on the submit, \<^verbatim>\<open>run_query_blocking\<close> returns \<^verbatim>\<open>None\<close> and raises nothing, against its
  return annotation and its docstring; with status 304 on a wait request,
  \<^verbatim>\<open>wait_query_blocking\<close> returns \<^verbatim>\<open>None\<close> and the loop raises the \<^verbatim>\<open>TypeError\<close> of unpacking
  it, which is no transport error.  No wait request follows either response.
\<close>

theorem status_304_raises_no_transport_error:
  "run_query_blocking example_codec example_api
     (scripted [\<lparr>status_code = 304, ndjson = []\<rparr>]) 5 []
     = ([run_request example_api []], Some (Inr None))
   \<and> run_query_blocking example_codec example_api
       (scripted [still_waiting two_jobs, \<lparr>status_code = 304, ndjson = []\<rparr>]) 5 []
     = ([run_request example_api [], wait_request example_api two_jobs], Some (Inl TypeError))"
  by (simp add: example_defs run_defs eval_nat_numeral)

text \<open>
  Claim C5: when the footer of the submit response has \<^verbatim>\<open>timed_out\<close> equal to the string
  \<^verbatim>\<open>false\<close>, \<^verbatim>\<open>run_query_blocking\<close> sends the submit request and nothing else: no wait
  request is sent, for any query body, and the call ends without entering the loop.
\<close>

theorem immediate_completion_sends_no_wait_request:
  assumes "ndjson (srv 0) \<noteq> []"
    and "map_of (last (ndjson (srv 0))) ''timed_out'' = Some (JStr ''false'')"
  shows "fst (run_query_blocking lib api srv fuel body) = [run_request api body]
         \<and> snd (run_query_blocking lib api srv fuel body) \<noteq> None"
proof (cases "status_code (srv 0) = 200")
  case True
  then have "complete (srv 0)" using assms by (simp add: complete_def)
  moreover have "polls_until srv JNull 0" by (simp add: polls_until_def)
  ultimately show ?thesis using run_complete [of srv JNull 0 fuel lib api body] by simp
next
  case False
  then show ?thesis
    by (simp add: run_query_blocking_def Let_def split: sum.splits)
qed

theorem immediate_completion_sends_no_wait_request_witness:
  "ndjson (scripted [finished_with_result] 0) \<noteq> []
   \<and> map_of (last (ndjson (scripted [finished_with_result] 0))) ''timed_out''
       = Some (JStr ''false'')
   \<and> fst (run_query_blocking example_codec example_api (scripted [finished_with_result]) 0
            [(''query'', JStr ''q'')])
       = [run_request example_api [(''query'', JStr ''q'')]]
   \<and> snd (run_query_blocking example_codec example_api (scripted [finished_with_result]) 0
            [(''query'', JStr ''q'')]) \<noteq> None"
proof -
  let ?s = "scripted [finished_with_result]"
  have h1: "ndjson (?s 0) \<noteq> []" by (simp add: example_defs)
  have h2: "map_of (last (ndjson (?s 0))) ''timed_out'' = Some (JStr ''false'')"
    by (simp add: example_defs)
  show ?thesis
    using h1 h2
      immediate_completion_sends_no_wait_request
        [of ?s example_codec example_api 0 "[(''query'', JStr ''q'')]", OF h1 h2]
    by simp
qed

text \<open>
  Claim C6: when the response that completes the query has exactly one record with a
  \<^verbatim>\<open>result\<close> key, the payload of that record decodes (base64, then the Arrow stream) to a
  table of \<open>N\<close> columns, and \<^verbatim>\<open>summary.fields\<close> of the record is a list of \<open>N\<close>
  descriptors, \<^verbatim>\<open>run_query_blocking\<close> returns that table together with that list, in the
  same order.
\<close>

theorem single_result_record_is_decoded:
  assumes "polls_until srv ids k" and "complete (srv k)" and "k \<le> fuel"
    and "filter (has_key ''result'') (ndjson (srv k)) = [d]"
    and "map_of d ''result'' = Some (JStr s)"
    and "b64decode lib s = Inr raw" and "read_all lib raw = Inr t" and "num_columns lib t = N"
    and "map_of d ''summary'' = Some (JObj sm)" and "map_of sm ''fields'' = Some (JArr fs)"
    and "length fs = N"
  shows "snd (run_query_blocking lib api srv fuel body) = Some (Inr (Some (t, JArr fs)))
         \<and> num_columns lib t = N \<and> length fs = N"
proof -
  have "decode_result lib (ndjson (srv k)) = Inr (t, JArr fs)"
    using assms(5-7,9,10) find_single [OF assms(4)]
    by (simp add: decode_result_def getitem_def subscript_def)
  then show ?thesis
    using run_complete [OF assms(1-3), of lib api body] assms(8,11) by simp
qed

theorem single_result_record_is_decoded_witness:
  "polls_until (scripted [still_waiting two_jobs, finished_with_result]) two_jobs (Suc 0)
   \<and> complete (scripted [still_waiting two_jobs, finished_with_result] (Suc 0))
   \<and> filter (has_key ''result'')
        (ndjson (scripted [still_waiting two_jobs, finished_with_result] (Suc 0)))
       = [result_record]
   \<and> map_of result_record ''result'' = Some (JStr ''QUJD'')
   \<and> b64decode example_codec ''QUJD'' = Inr [65, 66, 67]
   \<and> read_all example_codec [65, 66, 67] = Inr [[65], [66], [67]]
   \<and> num_columns example_codec [[65], [66], [67]] = 3
   \<and> map_of result_record ''summary'' = Some (JObj [(''fields'', JArr example_fields)])
   \<and> length example_fields = 3
   \<and> snd (run_query_blocking example_codec example_api
            (scripted [still_waiting two_jobs, finished_with_result]) (Suc 0) [])
       = Some (Inr (Some ([[65], [66], [67]], JArr example_fields)))"
proof -
  let ?s = "scripted [still_waiting two_jobs, finished_with_result]"
  have h1: "polls_until ?s two_jobs (Suc 0)"
    by (simp add: polls_until_def pending_def example_defs)
  have h2: "complete (?s (Suc 0))" by (simp add: complete_def example_defs)
  have h3: "Suc 0 \<le> Suc 0" by simp
  have h4: "filter (has_key ''result'') (ndjson (?s (Suc 0))) = [result_record]"
    by (simp add: has_key_def example_defs)
  have h5: "map_of result_record ''result'' = Some (JStr ''QUJD'')"
    by (simp add: example_defs)
  have h6: "b64decode example_codec ''QUJD'' = Inr [65, 66, 67]"
    by (simp add: example_defs)
  have h7: "read_all example_codec [65, 66, 67] = Inr [[65], [66], [67]]"
    by (simp add: example_defs)
  have h8: "num_columns example_codec [[65], [66], [67]] = 3"
    by (simp add: example_defs)
  have h9: "map_of result_record ''summary'' = Some (JObj [(''fields'', JArr example_fields)])"
    by (simp add: result_record_def)
  have h10: "map_of [(''fields'', JArr example_fields)] ''fields'' = Some (JArr example_fields)"
    by simp
  have h11: "length example_fields = 3" by (simp add: example_fields_def)
  show ?thesis
    using h1 h2 h4 h5 h6 h7 h8 h9 h11
      single_result_record_is_decoded
        [OF h1 h2 h3 h4 h5 h6 h7 h8 h9 h10 h11, of example_api "[]"]
    by simp
qed


text \<open>
  Claim C7: a table that is written as an Arrow stream and base64-encoded into the
  \<^verbatim>\<open>result\<close> field of the one result record comes back from \<^verbatim>\<open>run_query_blocking\<close> as it
  was, schema and data.  The writer and the encoder are library calls like the reader and
  the decoder, and are parameters here; what the library promises of them at this table,
  that decoding undoes encoding and reading undoes writing, is assumed.  The record has
  the service's shape, with its \<^verbatim>\<open>summary.fields\<close>.
\<close>

theorem encoded_table_round_trips:
  assumes "polls_until srv ids k" and "complete (srv k)" and "k \<le> fuel"
    and "filter (has_key ''result'') (ndjson (srv k)) = [d]"
    and "map_of d ''result'' = Some (JStr (b64encode (write_stream t)))"
    and "b64decode lib (b64encode (write_stream t)) = Inr (write_stream t)"
    and "read_all lib (write_stream t) = Inr t"
    and "map_of d ''summary'' = Some (JObj sm)" and "map_of sm ''fields'' = Some flds"
  shows "decode_result lib (ndjson (srv k)) = Inr (t, flds)
         \<and> snd (run_query_blocking lib api srv fuel body) = Some (Inr (Some (t, flds)))"
proof -
  have "decode_result lib (ndjson (srv k)) = Inr (t, flds)"
    using assms(5-9) find_single [OF assms(4)]
    by (simp add: decode_result_def getitem_def subscript_def)
  then show ?thesis
    using run_complete [OF assms(1-3), of lib api body] by simp
qed

theorem encoded_table_round_trips_witness:
  "polls_until (scripted [still_waiting two_jobs, finished_with_result]) two_jobs (Suc 0)
   \<and> complete (scripted [still_waiting two_jobs, finished_with_result] (Suc 0))
   \<and> filter (has_key ''result'')
        (ndjson (scripted [still_waiting two_jobs, finished_with_result] (Suc 0)))
       = [result_record]
   \<and> map_of result_record ''result''
       = Some (JStr (example_b64encode (example_write_stream [[65], [66], [67]])))
   \<and> b64decode example_codec (example_b64encode (example_write_stream [[65], [66], [67]]))
       = Inr (example_write_stream [[65], [66], [67]])
   \<and> read_all example_codec (example_write_stream [[65], [66], [67]]) = Inr [[65], [66], [67]]
   \<and> map_of result_record ''summary'' = Some (JObj [(''fields'', JArr example_fields)])
   \<and> decode_result example_codec
        (ndjson (scripted [still_waiting two_jobs, finished_with_result] (Suc 0)))
       = Inr ([[65], [66], [67]], JArr example_fields)
   \<and> snd (run_query_blocking example_codec example_api
            (scripted [still_waiting two_jobs, finished_with_result]) (Suc 0) [])
       = Some (Inr (Some ([[65], [66], [67]], JArr example_fields)))"
proof -
  let ?s = "scripted [still_waiting two_jobs, finished_with_result]"
  let ?t = "[[65], [66], [67]] :: byte list list"
  have h1: "polls_until ?s two_jobs (Suc 0)"
    by (simp add: polls_until_def pending_def example_defs)
  have h2: "complete (?s (Suc 0))" by (simp add: complete_def example_defs)
  have h3: "Suc 0 \<le> Suc 0" by simp
  have h4: "filter (has_key ''result'') (ndjson (?s (Suc 0))) = [result_record]"
    by (simp add: has_key_def example_defs)
  have h5: "map_of result_record ''result''
              = Some (JStr (example_b64encode (example_write_stream ?t)))"
    by (simp add: result_record_def example_b64encode_def example_write_stream_def)
  have h6: "b64decode example_codec (example_b64encode (example_write_stream ?t))
              = Inr (example_write_stream ?t)"
    by (simp add: example_codec_def example_b64encode_def example_write_stream_def)
  have h7: "read_all example_codec (example_write_stream ?t) = Inr ?t"
    by (simp add: example_codec_def example_write_stream_def)
  have h8: "map_of result_record ''summary'' = Some (JObj [(''fields'', JArr example_fields)])"
    by (simp add: result_record_def)
  have h9: "map_of [(''fields'', JArr example_fields)] ''fields'' = Some (JArr example_fields)"
    by simp
  show ?thesis
    using h1 h2 h4 h5 h6 h7 h8
      encoded_table_round_trips
        [of ?s two_jobs "Suc 0" "Suc 0" result_record example_b64encode example_write_stream
            ?t example_codec "[(''fields'', JArr example_fields)]" "JArr example_fields"
            example_api "[]", OF h1 h2 h3 h4 h5 h6 h7 h8 h9]
    by simp
qed

section \<open>Claims about the other operations\<close>

text \<open>
  Claim C8: \<^verbatim>\<open>create_model\<close>, \<^verbatim>\<open>create_topic\<close>, \<^verbatim>\<open>create_view\<close> and \<^verbatim>\<open>create_field\<close> write
  into the caller's dictionary before they send the request.  After the call the
  dictionary at the caller's address maps \<^verbatim>\<open>connectionId\<close>, \<^verbatim>\<open>baseViewName\<close>, \<^verbatim>\<open>viewName\<close>,
  and \<^verbatim>\<open>fieldName\<close> with \<^verbatim>\<open>viewName\<close>, to the argument given, its other keys are as before,
  and the request sent carries the dictionary as it is after the write.
\<close>

theorem create_calls_write_into_the_callers_body:
  "map_of (fst (create_model api http connection_id body h) body) =
     (map_of (h body))(''connectionId'' \<mapsto> JStr connection_id)
   \<and> fst (snd (create_model api http connection_id body h)) =
       Post (base_model_url api) (fst (create_model api http connection_id body h) body)
   \<and> map_of (fst (create_topic api http model_id base_view_name body h) body) =
       (map_of (h body))(''baseViewName'' \<mapsto> JStr base_view_name)
   \<and> fst (snd (create_topic api http model_id base_view_name body h)) =
       Post (base_topic_url api model_id)
         (fst (create_topic api http model_id base_view_name body h) body)
   \<and> map_of (fst (create_view api http model_id view_name body h) body) =
       (map_of (h body))(''viewName'' \<mapsto> JStr view_name)
   \<and> fst (snd (create_view api http model_id view_name body h)) =
       Post (base_view_url api model_id) (fst (create_view api http model_id view_name body h) body)
   \<and> map_of (fst (create_field api http model_id view_name field_name body h) body) =
       (map_of (h body))(''fieldName'' \<mapsto> JStr field_name, ''viewName'' \<mapsto> JStr view_name)
   \<and> fst (snd (create_field api http model_id view_name field_name body h)) =
       Post (base_field_url api model_id)
         (fst (create_field api http model_id view_name field_name body h) body)"
  by (simp add: create_model_def create_topic_def create_view_def create_field_def Let_def
        update_conv')

text \<open>
  Claim C9: for a wait response whose status is a success code other than 200,
  \<^verbatim>\<open>wait_query_blocking\<close> raises nothing and returns \<^verbatim>\<open>None\<close>, not a pair of records and a
  flag; the loop that called it gets no poll response, and its unpacking of \<^verbatim>\<open>None\<close> ends
  the call.
\<close>

theorem wait_returns_None_on_other_success_codes:
  assumes "200 < status_code (srv i)" and "status_code (srv i) < 300"
  shows "wait_query_blocking api (srv i) ids = (wait_request api ids, Inr None)
         \<and> (map_of footer ''remaining_job_ids'' = Some ids \<longrightarrow>
              poll api srv (Suc fuel) i footer rj False =
                ([wait_request api ids], Some (Inl TypeError)))"
proof -
  have w: "wait_query_blocking api (srv i) ids = (wait_request api ids, Inr None)"
    using assms by (simp add: wait_query_blocking_def raise_for_status_def)
  then show ?thesis by (simp add: getitem_def)
qed

theorem wait_returns_None_on_other_success_codes_witness:
  "200 < status_code (scripted [still_waiting two_jobs, \<lparr>status_code = 204, ndjson = []\<rparr>] 1)
   \<and> status_code (scripted [still_waiting two_jobs, \<lparr>status_code = 204, ndjson = []\<rparr>] 1) < 300
   \<and> map_of (footer_waiting two_jobs) ''remaining_job_ids'' = Some two_jobs
   \<and> wait_query_blocking example_api
        (scripted [still_waiting two_jobs, \<lparr>status_code = 204, ndjson = []\<rparr>] 1) two_jobs
       = (wait_request example_api two_jobs, Inr None)
   \<and> poll example_api (scripted [still_waiting two_jobs, \<lparr>status_code = 204, ndjson = []\<rparr>])
        (Suc 0) 1 (footer_waiting two_jobs) [footer_waiting two_jobs] False
       = ([wait_request example_api two_jobs], Some (Inl TypeError))"
proof -
  let ?s = "scripted [still_waiting two_jobs, \<lparr>status_code = 204, ndjson = []\<rparr>]"
  have c: "status_code (?s 1) = 204" by (simp add: scripted_def)
  have h1: "200 < status_code (?s 1)" and h2: "status_code (?s 1) < 300"
    unfolding c by simp_all
  have h3: "map_of (footer_waiting two_jobs) ''remaining_job_ids'' = Some two_jobs"
    by (simp add: footer_waiting_def)
  show ?thesis
    using h1 h2 h3
      wait_returns_None_on_other_success_codes
        [of ?s 1, OF h1 h2, of example_api two_jobs "footer_waiting two_jobs" 0
           "[footer_waiting two_jobs]"]
    by simp
qed

section \<open>Splitting and listify\<close>

lemma split_on_nonempty: "split_on sep s \<noteq> []"
  by (induction s) (simp_all add: Let_def)

lemma join_with_Cons: "ws \<noteq> [] \<Longrightarrow> join_with sep (w # ws) = w @ sep # join_with sep ws"
  by (cases ws) simp_all

text \<open>
  The pieces of a split hold no separator, there is one more piece than there are
  separators, and joined with the separator the pieces give the string back: nothing is
  trimmed from a piece.
\<close>

lemma join_split_on: "join_with sep (split_on sep s) = s"
proof (induction s)
  case Nil
  then show ?case by simp
next
  case (Cons c cs)
  obtain w ws where r: "split_on sep cs = w # ws"
    using split_on_nonempty [of sep cs] by (cases "split_on sep cs") auto
  show ?case
  proof (cases "c = sep")
    case True
    then show ?thesis using Cons.IH r by (simp add: join_with_Cons)
  next
    case False
    then show ?thesis using Cons.IH r by (cases ws) auto
  qed
qed

lemma split_on_pieces: "w \<in> set (split_on sep s) \<Longrightarrow> sep \<notin> set w"
proof (induction s arbitrary: w)
  case Nil
  then show ?case by simp
next
  case (Cons c cs)
  obtain v vs where r: "split_on sep cs = v # vs"
    using split_on_nonempty [of sep cs] by (cases "split_on sep cs") auto
  show ?case
  proof (cases "c = sep")
    case True
    then show ?thesis using Cons by (auto simp: Let_def)
  next
    case False
    then show ?thesis using Cons.IH [of v] Cons.IH [of w] Cons.prems r by auto
  qed
qed

lemma length_split_on: "length (split_on sep s) = Suc (count_list s sep)"
proof (induction s)
  case Nil
  then show ?case by simp
next
  case (Cons c cs)
  then show ?case using split_on_nonempty [of sep cs]
    by (cases "split_on sep cs") (auto simp: Let_def)
qed

lemma remove_brackets:
  "remove_char CHR '']'' (remove_char CHR ''['' v) =
     filter (\<lambda>c. c \<noteq> CHR ''['' \<and> c \<noteq> CHR '']'') v"
  by (simp add: remove_char_def)

lemma update_fresh: "k \<notin> fst ` set al \<Longrightarrow> AList.update k v al = al @ [(k, v)]"
  by (induction al) auto

lemma listify_items_step:
  "listify_items ((k, v) # items) out =
     listify_items items (AList.update k (listified_value v) out)"
  by (simp add: listified_value_def remove_brackets)

lemma listify_items_distinct:
  assumes "distinct (map fst d)" and "fst ` set d \<inter> fst ` set out = {}"
  shows "listify_items d out = out @ map (\<lambda>(k, v). (k, listified_value v)) d"
  using assms
proof (induction d arbitrary: out)
  case Nil
  then show ?case by simp
next
  case (Cons kv d)
  obtain k v where kv: "kv = (k, v)" by force
  have fresh: "k \<notin> fst ` set out" using Cons.prems(2) kv by auto
  have d: "distinct (map fst d)" and k: "k \<notin> fst ` set d"
    using Cons.prems(1) kv by (simp_all add: image_iff)
  have disj: "fst ` set d \<inter> fst ` set (out @ [(k, listified_value v)]) = {}"
    using Cons.prems(2) k by auto
  show ?case
    unfolding kv listify_items_step update_fresh [OF fresh]
    using Cons.IH [OF d disj] by simp
qed

text \<open>
  Claim C10: on a dictionary with string values (its keys are distinct, as the keys of a
  dictionary are), \<^verbatim>\<open>listify\<close> returns a dictionary with the same keys in the same order;
  a value that holds both a \<^verbatim>\<open>[\<close> and a \<^verbatim>\<open>]\<close> anywhere is replaced by the list got by
  deleting every bracket and splitting the rest at the commas, and every other value is
  returned as it is.
\<close>

theorem listify_replaces_bracketed_values:
  assumes "distinct (map fst d)"
  shows "listify d = map (\<lambda>(k, v). (k, listified_value v)) d
         \<and> map fst (listify d) = map fst d"
proof -
  have "listify d = map (\<lambda>(k, v). (k, listified_value v)) d"
    using listify_items_distinct [OF assms, of "[]"] by (simp add: listify_def)
  then show ?thesis by (simp add: case_prod_beta comp_def)
qed

theorem listify_replaces_bracketed_values_witness:
  "distinct (map fst [(''groups'', ''[a, b]''), (''team'', ''core''), (''odd'', ''x]y[,z'')])
   \<and> listify [(''groups'', ''[a, b]''), (''team'', ''core''), (''odd'', ''x]y[,z'')]
       = [(''groups'', JArr [JStr ''a'', JStr '' b'']), (''team'', JStr ''core''),
          (''odd'', JArr [JStr ''xy'', JStr ''z''])]
   \<and> map fst (listify [(''groups'', ''[a, b]''), (''team'', ''core''), (''odd'', ''x]y[,z'')])
       = [''groups'', ''team'', ''odd'']"
proof -
  have h: "distinct (map fst [(''groups'', ''[a, b]''), (''team'', ''core''), (''odd'', ''x]y[,z'')])"
    by simp
  show ?thesis
    using h listify_replaces_bracketed_values [OF h]
    by (simp add: listified_value_def Let_def)
qed


end
